theory Spec2Isabelle
  imports Complex_Main "HOL-Library.Signed_Division" "HOL-Library.Log_Nat"
begin

section \<open>The print layout editor: data model\<close>

text \<open>
  The repository holds two near-duplicate React components of the same editor:
  \<^verbatim>\<open>src/components/PrintLayoutEditor.tsx\<close> (96 DPI, toast notifications) and a second file
  (300 DPI, a zoom factor, \<^verbatim>\<open>alert\<close>). Functions whose bodies are the same in both files are
  embedded once; where constants or statements differ, the function takes the file as an
  argument of type \<open>source\<close>.

  JavaScript numbers are embedded as rationals, without NaN and infinity, and arithmetic
  is exact, with one exception. Photo sizes, margins and gaps are integers wherever the
  editor creates them, but positions are not: a drag under a zoom factor leaves fractions
  behind, and the recentring of a swap-dimensions rotation chains additions and halvings
  whose rounding errors do not cancel. That branch of \<^verbatim>\<open>rotatePhoto\<close> therefore rounds the
  result of every operation to an IEEE double (\<open>fl64\<close> below).
  The rotation angle only ever holds integers and is read with \<^verbatim>\<open>%\<close>, so it is an \<open>int\<close>,
  and \<^verbatim>\<open>%\<close> is the truncating remainder \<open>smod\<close>. The \<^verbatim>\<open>count\<close> of a bulk add is a
  natural number (the buttons pass 4, 6, 8 and 12).

  A handler is a function from the component state to the next state, and a functional
  update \<^verbatim>\<open>setPhotos(prev => ...)\<close> is applied at once. A handler reads the state of the
  moment it runs, with one exception: the second file memoises \<^verbatim>\<open>handleMouseMove\<close> and
  \<^verbatim>\<open>handleKeyDown\<close> with dependency lists that do not name \<^verbatim>\<open>rotateInPlace\<close>, so there these
  two callbacks compute bounding boxes with the flag of the render that created them. That
  captured flag is an argument of the two handlers.
\<close>

type_synonym number = rat

datatype source = Editor | Demo

text \<open>
  \<^verbatim>\<open>type PhotoOnPage\<close>. The fields \<^verbatim>\<open>id\<close>, \<^verbatim>\<open>x\<close> and \<^verbatim>\<open>y\<close> are named \<open>id'\<close>, \<open>pos_x\<close> and
  \<open>pos_y\<close> here.
\<close>

record PhotoOnPage =
  id' :: string
  dataUrl :: string
  pos_x :: number
  pos_y :: number
  width :: number
  height :: number
  originalWidth :: number
  originalHeight :: number
  hasBorder :: bool
  rotation :: int

record PageSize =
  name :: string
  widthIn :: number
  heightIn :: number

text \<open>
  The keys of \<^verbatim>\<open>PAGE_SIZES\<close>. The page-size selector offers exactly these two values, so
  the state variable \<^verbatim>\<open>pageSize\<close> never holds another string.
\<close>

datatype pageKey = Key_4x6 | Key_a4

fun PAGE_SIZES :: "pageKey \<Rightarrow> PageSize" where
  "PAGE_SIZES Key_4x6 =
     \<lparr>name = ''4'' @ [CHR 0xC3, CHR 0x97] @ ''6 inches'', widthIn = 4, heightIn = 6\<rparr>"
| "PAGE_SIZES Key_a4 =
     \<lparr>name = ''A4 (8.27'' @ [CHR 0xC3, CHR 0x97] @ ''11.69 in)'',
      widthIn = 827 / 100, heightIn = 1169 / 100\<rparr>"

text \<open>The props entry \<^verbatim>\<open>savedCrops[i]\<close>.\<close>

record crop =
  crop_id :: string
  crop_dataUrl :: string
  crop_width :: number
  crop_height :: number

text \<open>
  What a handler does to the outside world: notifications, the print window, a deferred
  call, \<^verbatim>\<open>e.preventDefault()\<close>. A printed photo box is kept as its numbers, not as markup.
\<close>

datatype lengthUnit = Percent | Px

record printBox =
  box_unit :: lengthUnit
  box_left :: number
  box_top :: number
  box_width :: number
  box_height :: number
  box_border :: bool
  img_width :: number
  img_height :: number
  img_rotation :: int
  img_src :: string

datatype effect =
    Toast_success string
  | Toast_error string
  | Alert string
  | Window_open
  | Document_write number number "printBox list"
  | Document_close
  | Timeout_handleDeleteSelected
  | PreventDefault

text \<open>
  The component state (\<^verbatim>\<open>useState\<close> hooks). \<open>zoom\<close> exists in the second file only;
  \<open>effects\<close> is the log of what the handlers did to the outside world, oldest first.
\<close>

record editor =
  pageSize :: pageKey
  photos :: "PhotoOnPage list"
  selectedPhotoIds :: "string set"
  dragging :: bool
  dragOffset :: "number \<times> number"
  showBorderByDefault :: bool
  rotateInPlace :: bool
  contextMenu :: "(number \<times> number \<times> string) option"
  zoom :: number
  effects :: "effect list"

definition initial :: editor where
  "initial = \<lparr>pageSize = Key_4x6, photos = [], selectedPhotoIds = {}, dragging = False,
     dragOffset = (0, 0), showBorderByDefault = True, rotateInPlace = True,
     contextMenu = None, zoom = 1 / 2, effects = []\<rparr>"

fun DPI :: "source \<Rightarrow> number" where
  "DPI Editor = 96"
| "DPI Demo = 300"

definition currentPageSize :: "editor \<Rightarrow> PageSize" where
  "currentPageSize st = PAGE_SIZES (pageSize st)"

definition pageWidthPx :: "source \<Rightarrow> editor \<Rightarrow> number" where
  "pageWidthPx src st = widthIn (currentPageSize st) * DPI src"

definition pageHeightPx :: "source \<Rightarrow> editor \<Rightarrow> number" where
  "pageHeightPx src st = heightIn (currentPageSize st) * DPI src"

section \<open>Geometry helpers\<close>

text \<open>
  \<^verbatim>\<open>getBoundingBox\<close> reads \<^verbatim>\<open>rotateInPlace\<close> from the enclosing component; here it is the
  first argument. The result is the pair (width, height).
\<close>

definition getBoundingBox :: "bool \<Rightarrow> PhotoOnPage \<Rightarrow> number \<times> number" where
  "getBoundingBox rip photo =
     (if rip \<and> rotation photo smod 180 \<noteq> 0
      then (let maxDim = max (width photo) (height photo) in (maxDim, maxDim))
      else (width photo, height photo))"

text \<open>The spec's words "an odd multiple of 90 degrees" and "a multiple of 180".\<close>

definition odd_multiple_of_90 :: "int \<Rightarrow> bool" where
  "odd_multiple_of_90 r \<longleftrightarrow> r mod 90 = 0 \<and> odd (r div 90)"

definition multiple_of_180 :: "int \<Rightarrow> bool" where
  "multiple_of_180 r \<longleftrightarrow> r mod 180 = 0"

section \<open>Deleting and clearing\<close>

definition handleDeletePhoto :: "string \<Rightarrow> editor \<Rightarrow> editor" where
  "handleDeletePhoto photoId st =
     st\<lparr>photos := filter (\<lambda>p. id' p \<noteq> photoId) (photos st),
        selectedPhotoIds := selectedPhotoIds st - {photoId}\<rparr>"

definition handleDeleteSelected :: "source \<Rightarrow> editor \<Rightarrow> editor" where
  "handleDeleteSelected src st =
     (if selectedPhotoIds st = {} then st
      else st\<lparr>photos := filter (\<lambda>p. id' p \<notin> selectedPhotoIds st) (photos st),
              selectedPhotoIds := {},
              effects := effects st @
                (case src of Editor \<Rightarrow> [Toast_success ''Selected photos deleted'']
                 | Demo \<Rightarrow> [])\<rparr>)"

text \<open>The "Clear All" button: \<^verbatim>\<open>onClick={() => setPhotos([])}\<close>.\<close>

definition clearAll :: "editor \<Rightarrow> editor" where
  "clearAll st = st\<lparr>photos := []\<rparr>"

section \<open>Rounding to IEEE doubles\<close>

text \<open>
  The double nearest to a rational, ties to the even significand: 53 significant bits, a
  unit in the last place of 2 to the power of (exponent - 52). Overflow and subnormal
  numbers are left out; the coordinates of the editor are far from both.
\<close>

definition pow2 :: "int \<Rightarrow> rat" where
  "pow2 k = (if 0 \<le> k then 2 ^ nat k else 1 / 2 ^ nat (- k))"

text \<open>For positive \<open>q\<close>, the integer \<open>e\<close> with \<open>pow2 e \<le> q < pow2 (e + 1)\<close>.\<close>

definition binaryExponent :: "rat \<Rightarrow> int" where
  "binaryExponent q =
     (if 1 \<le> q then bitlen \<lfloor>q\<rfloor> - 1
      else (let l = bitlen \<lfloor>1 / q\<rfloor> in if pow2 (1 - l) \<le> q then 1 - l else - l))"

definition roundHalfEven :: "rat \<Rightarrow> int" where
  "roundHalfEven n =
     (let f = \<lfloor>n\<rfloor>; d = n - of_int f in
      if d < 1 / 2 then f
      else if 1 / 2 < d then f + 1
      else if even f then f else f + 1)"

definition fl64 :: "number \<Rightarrow> number" where
  "fl64 q =
     (if q = 0 then 0
      else (let ulp = pow2 (binaryExponent \<bar>q\<bar> - 52)
            in of_int (roundHalfEven (q / ulp)) * ulp))"

section \<open>Rotation\<close>

text \<open>
  The callback that \<^verbatim>\<open>rotatePhoto\<close> maps over the photo list, for the photo whose id
  matches. \<open>fl\<close> rounds the result of each arithmetic operation; \<^verbatim>\<open>rotateInPlace\<close>,
  \<^verbatim>\<open>pageWidthPx\<close> and \<^verbatim>\<open>pageHeightPx\<close> of the enclosing component are the next three
  arguments. \<^verbatim>\<open>Math.max\<close> and \<^verbatim>\<open>Math.min\<close> do not round.
\<close>

definition rotateOne ::
  "(number \<Rightarrow> number) \<Rightarrow> bool \<Rightarrow> number \<Rightarrow> number \<Rightarrow> PhotoOnPage \<Rightarrow> PhotoOnPage" where
  "rotateOne fl rip pw ph p =
     (let newRotation = (rotation p + 90) smod 360 in
      if rip then p\<lparr>rotation := newRotation\<rparr>
      else
        (let centerX = fl (pos_x p + fl (width p / 2));
             centerY = fl (pos_y p + fl (height p / 2));
             newWidth = height p;
             newHeight = width p;
             newX = max 0 (min (fl (centerX - fl (newWidth / 2))) (fl (pw - newWidth)));
             newY = max 0 (min (fl (centerY - fl (newHeight / 2))) (fl (ph - newHeight)))
         in p\<lparr>rotation := newRotation, width := newWidth, height := newHeight,
              pos_x := newX, pos_y := newY\<rparr>))"

definition rotatePhoto :: "source \<Rightarrow> string \<Rightarrow> editor \<Rightarrow> editor" where
  "rotatePhoto src photoId st =
     st\<lparr>photos :=
          map (\<lambda>p. if id' p \<noteq> photoId then p
                   else rotateOne fl64 (rotateInPlace st) (pageWidthPx src st)
                          (pageHeightPx src st) p)
            (photos st),
        contextMenu := None\<rparr>"

text \<open>
  The position on which swap-dimensions rotation recentres a photo, before the clamp:
  (centerX - newWidth / 2, centerY - newHeight / 2), as computed under the rounding \<open>fl\<close>.
  With \<open>fl\<close> the identity it is the exact position (x + width / 2 - height / 2,
  y + height / 2 - width / 2).
\<close>

definition recentered :: "(number \<Rightarrow> number) \<Rightarrow> PhotoOnPage \<Rightarrow> number \<times> number" where
  "recentered fl p =
     (fl (fl (pos_x p + fl (width p / 2)) - fl (height p / 2)),
      fl (fl (pos_y p + fl (height p / 2)) - fl (width p / 2)))"

text \<open>The clamp of a swap-dimensions rotation leaves the recentred position as it is.\<close>

definition clampInactive ::
  "(number \<Rightarrow> number) \<Rightarrow> number \<Rightarrow> number \<Rightarrow> PhotoOnPage \<Rightarrow> bool" where
  "clampInactive fl pw ph p \<longleftrightarrow>
     pos_x (rotateOne fl False pw ph p) = fst (recentered fl p) \<and>
     pos_y (rotateOne fl False pw ph p) = snd (recentered fl p)"

text \<open>Rounding leaves the recentred position as it is: the computed one is the exact one.\<close>

definition roundingInactive :: "(number \<Rightarrow> number) \<Rightarrow> PhotoOnPage \<Rightarrow> bool" where
  "roundingInactive fl p \<longleftrightarrow> recentered fl p = recentered (\<lambda>v. v) p"

text \<open>A photo without its position: what a rotation does to the other fields.\<close>

definition unplaced :: "PhotoOnPage \<Rightarrow> PhotoOnPage" where
  "unplaced p = p\<lparr>pos_x := 0, pos_y := 0\<rparr>"

text \<open>
  The rotation angles of the data model. Every photo is created with rotation 0 or 90 and
  \<^verbatim>\<open>rotatePhoto\<close> is the only writer, so every stored angle lies in this range.
\<close>

definition validRotation :: "PhotoOnPage \<Rightarrow> bool" where
  "validRotation p \<longleftrightarrow> 0 \<le> rotation p \<and> rotation p < 360"

section \<open>Dragging\<close>

text \<open>
  The pointer position in page coordinates, minus the stored offset: \<^verbatim>\<open>newX\<close>, \<^verbatim>\<open>newY\<close> of
  \<^verbatim>\<open>handleMouseMove\<close>. \<open>rect\<close> is (left, top) of the page element, \<open>e\<close> is
  (clientX, clientY). Only the second file divides by the zoom factor, which its slider
  keeps between 0.2 and 1.
\<close>

definition pointerTarget ::
  "source \<Rightarrow> number \<times> number \<Rightarrow> number \<times> number \<Rightarrow> editor \<Rightarrow> number \<times> number" where
  "pointerTarget src rect e st =
     (case src of
        Editor \<Rightarrow> (fst e - fst rect - fst (dragOffset st), snd e - snd rect - snd (dragOffset st))
      | Demo \<Rightarrow> ((fst e - fst rect) / zoom st - fst (dragOffset st),
                 (snd e - snd rect) / zoom st - snd (dragOffset st)))"

text \<open>
  The value of \<^verbatim>\<open>rotateInPlace\<close> that \<^verbatim>\<open>getBoundingBox\<close> reads inside \<^verbatim>\<open>handleMouseMove\<close> and
  \<^verbatim>\<open>handleKeyDown\<close>. The first file lists \<^verbatim>\<open>rotateInPlace\<close> among the dependencies of both
  callbacks, so they see the current flag. The second file does not: its callbacks see
  \<open>memo\<close>, the flag of the render in which the callback was last created.
\<close>

definition seenRotateInPlace :: "source \<Rightarrow> bool \<Rightarrow> editor \<Rightarrow> bool" where
  "seenRotateInPlace src memo st = (case src of Editor \<Rightarrow> rotateInPlace st | Demo \<Rightarrow> memo)"

text \<open>The callback mapped over the photo list by \<^verbatim>\<open>handleMouseMove\<close>, for a selected photo.\<close>

definition dragOne ::
  "bool \<Rightarrow> number \<Rightarrow> number \<Rightarrow> number \<Rightarrow> number \<Rightarrow> PhotoOnPage \<Rightarrow> PhotoOnPage" where
  "dragOne rip pw ph deltaX deltaY p =
     (let bbox = getBoundingBox rip p;
          nextX = max 0 (min (pos_x p + deltaX) (pw - fst bbox));
          nextY = max 0 (min (pos_y p + deltaY) (ph - snd bbox))
      in p\<lparr>pos_x := nextX, pos_y := nextY\<rparr>)"

text \<open>
  \<open>rect\<close> is \<open>None\<close> when \<^verbatim>\<open>pageRef.current\<close> is not mounted. The primary photo is the
  first photo of the list whose id is selected.
\<close>

definition handleMouseMove ::
  "source \<Rightarrow> bool \<Rightarrow> (number \<times> number) option \<Rightarrow> number \<times> number \<Rightarrow> editor \<Rightarrow> editor" where
  "handleMouseMove src memo rect e st =
     (if \<not> dragging st \<or> selectedPhotoIds st = {} then st
      else case rect of
        None \<Rightarrow> st
      | Some r \<Rightarrow>
          (case find (\<lambda>p. id' p \<in> selectedPhotoIds st) (photos st) of
             None \<Rightarrow> st
           | Some primaryPhoto \<Rightarrow>
               (let deltaX = fst (pointerTarget src r e st) - pos_x primaryPhoto;
                    deltaY = snd (pointerTarget src r e st) - pos_y primaryPhoto
                in st\<lparr>photos :=
                     map (\<lambda>p. if id' p \<in> selectedPhotoIds st
                              then dragOne (seenRotateInPlace src memo st)
                                     (pageWidthPx src st) (pageHeightPx src st)
                                     deltaX deltaY p
                              else p)
                       (photos st)\<rparr>)))"

section \<open>Keyboard nudge\<close>

text \<open>
  The callback mapped over the photo list by \<^verbatim>\<open>handleKeyDown\<close>, for a selected photo:
  the \<^verbatim>\<open>switch\<close> on \<^verbatim>\<open>e.key\<close>. Delete and Backspace return the photo itself.
\<close>

definition nudgeOne ::
  "bool \<Rightarrow> number \<Rightarrow> number \<Rightarrow> string \<Rightarrow> number \<Rightarrow> PhotoOnPage \<Rightarrow> PhotoOnPage" where
  "nudgeOne rip pw ph key step p =
     (let bbox = getBoundingBox rip p in
      if key = ''ArrowLeft'' then p\<lparr>pos_x := max 0 (pos_x p - step), pos_y := pos_y p\<rparr>
      else if key = ''ArrowRight''
        then p\<lparr>pos_x := min (pw - fst bbox) (pos_x p + step), pos_y := pos_y p\<rparr>
      else if key = ''ArrowUp'' then p\<lparr>pos_x := pos_x p, pos_y := max 0 (pos_y p - step)\<rparr>
      else if key = ''ArrowDown''
        then p\<lparr>pos_x := pos_x p, pos_y := min (ph - snd bbox) (pos_y p + step)\<rparr>
      else if key = ''Delete'' \<or> key = ''Backspace'' then p
      else p\<lparr>pos_x := pos_x p, pos_y := pos_y p\<rparr>)"

text \<open>
  What one selected photo's callback does besides returning the photo: an arrow key sets
  \<^verbatim>\<open>handled\<close> and calls \<^verbatim>\<open>e.preventDefault()\<close>; Delete and Backspace schedule
  \<^verbatim>\<open>handleDeleteSelected\<close> and return before the \<^verbatim>\<open>preventDefault\<close> line.
\<close>

definition keyEffects :: "string \<Rightarrow> effect list" where
  "keyEffects key =
     (if key \<in> {''ArrowLeft'', ''ArrowRight'', ''ArrowUp'', ''ArrowDown''} then [PreventDefault]
      else if key = ''Delete'' \<or> key = ''Backspace'' then [Timeout_handleDeleteSelected]
      else [])"

text \<open>
  \<open>key\<close> is \<^verbatim>\<open>e.key\<close>, \<open>shiftKey\<close> is \<^verbatim>\<open>e.shiftKey\<close>, \<open>memo\<close> is the captured flag of
  \<open>seenRotateInPlace\<close>.
\<close>

definition handleKeyDown :: "source \<Rightarrow> bool \<Rightarrow> string \<Rightarrow> bool \<Rightarrow> editor \<Rightarrow> editor" where
  "handleKeyDown src memo key shiftKey st =
     (if selectedPhotoIds st = {} then st
      else
        (let step = (if shiftKey then 10 else 1) in
         st\<lparr>photos :=
              map (\<lambda>p. if id' p \<notin> selectedPhotoIds st then p
                       else nudgeOne (seenRotateInPlace src memo st) (pageWidthPx src st)
                              (pageHeightPx src st) key step p)
                (photos st),
            effects := effects st @
              concat (map (\<lambda>p. if id' p \<notin> selectedPhotoIds st then [] else keyEffects key)
                        (photos st))\<rparr>))"

section \<open>Adding photos\<close>

text \<open>Decimal text of a number, as a template string prints the loop index and the count.\<close>

fun string_of_nat :: "nat \<Rightarrow> string" where
  "string_of_nat n =
     (if n < 10 then [''0123456789'' ! n]
      else string_of_nat (n div 10) @ [''0123456789'' ! (n mod 10)])"

text \<open>
  A new record. \<open>stamp\<close> stands for the text of \<^verbatim>\<open>${Date.now()}-${Math.random()}\<close>, which
  the environment supplies.
\<close>

definition handleAddPhoto :: "source \<Rightarrow> string \<Rightarrow> crop \<Rightarrow> editor \<Rightarrow> editor" where
  "handleAddPhoto src stamp c st =
     (let photoWidth = (case src of Editor \<Rightarrow> crop_width c / 96 * DPI src | Demo \<Rightarrow> crop_width c);
          photoHeight = (case src of Editor \<Rightarrow> crop_height c / 96 * DPI src | Demo \<Rightarrow> crop_height c);
          newPhoto = \<lparr>id' = ''photo-'' @ stamp, dataUrl = crop_dataUrl c,
            pos_x = (pageWidthPx src st - photoWidth) / 2,
            pos_y = (pageHeightPx src st - photoHeight) / 2,
            width = photoWidth, height = photoHeight,
            originalWidth = crop_width c, originalHeight = crop_height c,
            hasBorder = showBorderByDefault st, rotation = 0\<rparr>
      in st\<lparr>photos := photos st @ [newPhoto],
            effects := effects st @
              (case src of Editor \<Rightarrow> [Toast_success ''Photo added to layout''] | Demo \<Rightarrow> [])\<rparr>)"

text \<open>The layout constants of a bulk add.\<close>

record tiling =
  marginTop :: number
  marginLeft :: number
  marginRight :: number
  gapX :: number
  gapY :: number

text \<open>
  One iteration of the packing loop of \<^verbatim>\<open>handleAddEightPhotos\<close> and
  \<^verbatim>\<open>handleAddMultiplePhotos\<close>. The loop state is (x, y, rowHeight, newPhotos); \<open>mk i x y\<close> is
  the record pushed in iteration \<open>i\<close>. The first file keeps the variable \<^verbatim>\<open>rowHeight\<close> and
  advances y by it; the second file has no such variable and advances y by the item
  height, so there the third component is carried along unread.
\<close>

definition packStep ::
  "source \<Rightarrow> tiling \<Rightarrow> number \<Rightarrow> number \<Rightarrow> number \<Rightarrow> (nat \<Rightarrow> number \<Rightarrow> number \<Rightarrow> PhotoOnPage) \<Rightarrow>
   nat \<Rightarrow> number \<times> number \<times> number \<times> PhotoOnPage list \<Rightarrow>
   number \<times> number \<times> number \<times> PhotoOnPage list" where
  "packStep src t itemWidth itemHeight pageWidth mk i s =
     (case s of (x, y, rowHeight, newPhotos) \<Rightarrow>
        (let wrap = (x + itemWidth + marginRight t > pageWidth);
             x1 = (if wrap then marginLeft t else x);
             y1 = (if wrap
                   then (case src of Editor \<Rightarrow> y + rowHeight + gapY t
                         | Demo \<Rightarrow> y + itemHeight + gapY t)
                   else y);
             rowHeight1 = (if wrap then itemHeight else rowHeight)
         in (x1 + itemWidth + gapX t, y1, rowHeight1, newPhotos @ [mk i x1 y1])))"

text \<open>\<^verbatim>\<open>for (let i = 0; i < count; i++)\<close> from x = marginLeft, y = marginTop.\<close>

definition packLoop ::
  "source \<Rightarrow> tiling \<Rightarrow> number \<Rightarrow> number \<Rightarrow> number \<Rightarrow> (nat \<Rightarrow> number \<Rightarrow> number \<Rightarrow> PhotoOnPage) \<Rightarrow>
   nat \<Rightarrow> number \<times> number \<times> number \<times> PhotoOnPage list" where
  "packLoop src t itemWidth itemHeight pageWidth mk count =
     fold (packStep src t itemWidth itemHeight pageWidth mk) [0..<count]
       (marginLeft t, marginTop t, itemHeight, [])"

definition photoSize :: "source \<Rightarrow> crop \<Rightarrow> number \<times> number" where
  "photoSize src c =
     (case src of
        Editor \<Rightarrow> (crop_width c / 96 * DPI src, crop_height c / 96 * DPI src)
      | Demo \<Rightarrow> (crop_width c, crop_height c))"

definition rotatedTiling :: "source \<Rightarrow> tiling" where
  "rotatedTiling src =
     (case src of
        Editor \<Rightarrow> \<lparr>marginTop = 20, marginLeft = 20, marginRight = 20, gapX = 3, gapY = 3\<rparr>
      | Demo \<Rightarrow> \<lparr>marginTop = 49, marginLeft = 55, marginRight = 55, gapX = 9, gapY = 9\<rparr>)"

definition plainTiling :: "source \<Rightarrow> tiling" where
  "plainTiling src =
     (case src of
        Editor \<Rightarrow> \<lparr>marginTop = 15, marginLeft = 20, marginRight = 20, gapX = 6, gapY = 6\<rparr>
      | Demo \<Rightarrow> \<lparr>marginTop = 49, marginLeft = 55, marginRight = 55, gapX = 29, gapY = 22\<rparr>)"

text \<open>The list \<^verbatim>\<open>newPhotos\<close> that \<^verbatim>\<open>handleAddEightPhotos\<close> builds.\<close>

definition eightPhotos :: "source \<Rightarrow> (nat \<Rightarrow> string) \<Rightarrow> crop \<Rightarrow> nat \<Rightarrow> editor \<Rightarrow> PhotoOnPage list" where
  "eightPhotos src stamp c count st =
     (let photoWidth = fst (photoSize src c);
          photoHeight = snd (photoSize src c);
          imageRotation = 90;
          isRotated90or270 = (imageRotation smod 180 \<noteq> 0);
          boundingWidth = (if isRotated90or270 then photoHeight else photoWidth);
          boundingHeight = (if isRotated90or270 then photoWidth else photoHeight)
      in snd (snd (snd
           (packLoop src (rotatedTiling src) boundingWidth boundingHeight (pageWidthPx src st)
              (\<lambda>i x y. \<lparr>id' = ''photo-'' @ stamp i @ ''-'' @ string_of_nat i,
                  dataUrl = crop_dataUrl c, pos_x = x, pos_y = y,
                  width = boundingWidth, height = boundingHeight,
                  originalWidth = crop_width c, originalHeight = crop_height c,
                  hasBorder = showBorderByDefault st, rotation = imageRotation\<rparr>)
              count))))"

definition handleAddEightPhotos ::
  "source \<Rightarrow> (nat \<Rightarrow> string) \<Rightarrow> crop \<Rightarrow> nat \<Rightarrow> editor \<Rightarrow> editor" where
  "handleAddEightPhotos src stamp c count st =
     st\<lparr>photos := photos st @ eightPhotos src stamp c count st,
        effects := effects st @
          (case src of
             Editor \<Rightarrow> [Toast_success (string_of_nat count @ '' rotated photos added'')]
           | Demo \<Rightarrow> [])\<rparr>"

text \<open>The list \<^verbatim>\<open>newPhotos\<close> that \<^verbatim>\<open>handleAddMultiplePhotos\<close> builds.\<close>

definition multiplePhotos :: "source \<Rightarrow> (nat \<Rightarrow> string) \<Rightarrow> crop \<Rightarrow> nat \<Rightarrow> editor \<Rightarrow> PhotoOnPage list" where
  "multiplePhotos src stamp c count st =
     (let photoWidth = fst (photoSize src c);
          photoHeight = snd (photoSize src c)
      in snd (snd (snd
           (packLoop src (plainTiling src) photoWidth photoHeight (pageWidthPx src st)
              (\<lambda>i x y. \<lparr>id' = ''photo-'' @ stamp i @ ''-'' @ string_of_nat i,
                  dataUrl = crop_dataUrl c, pos_x = x, pos_y = y,
                  width = photoWidth, height = photoHeight,
                  originalWidth = crop_width c, originalHeight = crop_height c,
                  hasBorder = showBorderByDefault st, rotation = 0\<rparr>)
              count))))"

definition handleAddMultiplePhotos ::
  "source \<Rightarrow> (nat \<Rightarrow> string) \<Rightarrow> crop \<Rightarrow> nat \<Rightarrow> editor \<Rightarrow> editor" where
  "handleAddMultiplePhotos src stamp c count st =
     st\<lparr>photos := photos st @ multiplePhotos src stamp c count st,
        effects := effects st @
          (case src of
             Editor \<Rightarrow> [Toast_success (string_of_nat count @ '' photos added'')]
           | Demo \<Rightarrow> [])\<rparr>"

text \<open>
  The spec's row capacity \<lfloor>(pageWidth - marginLeft - marginRight + gapX) / (itemWidth + gapX)\<rfloor>
  and the grid cell of item \<open>i\<close> in rows of \<open>cap\<close> items.
\<close>

definition rowCapacity :: "tiling \<Rightarrow> number \<Rightarrow> number \<Rightarrow> nat" where
  "rowCapacity t itemWidth pageWidth =
     nat \<lfloor>(pageWidth - marginLeft t - marginRight t + gapX t) / (itemWidth + gapX t)\<rfloor>"

definition gridX :: "tiling \<Rightarrow> number \<Rightarrow> nat \<Rightarrow> nat \<Rightarrow> number" where
  "gridX t itemWidth cap i = marginLeft t + of_nat (i mod cap) * (itemWidth + gapX t)"

definition gridY :: "tiling \<Rightarrow> number \<Rightarrow> nat \<Rightarrow> nat \<Rightarrow> number" where
  "gridY t itemHeight cap i = marginTop t + of_nat (i div cap) * (itemHeight + gapY t)"

section \<open>Printing\<close>

text \<open>
  The box that the print document holds for one photo. The first file positions boxes in
  percent of the page, the second in pixels scaled to 96 DPI; the image inside is sized in
  pixels in both.
\<close>

definition printBoxOf :: "source \<Rightarrow> editor \<Rightarrow> PhotoOnPage \<Rightarrow> printBox" where
  "printBoxOf src st photo =
     (let isRotated90or270 = (rotation photo smod 180 \<noteq> 0) in
      case src of
        Editor \<Rightarrow>
          \<lparr>box_unit = Percent,
           box_left = pos_x photo / pageWidthPx src st * 100,
           box_top = pos_y photo / pageHeightPx src st * 100,
           box_width = width photo / pageWidthPx src st * 100,
           box_height = height photo / pageHeightPx src st * 100,
           box_border = hasBorder photo,
           img_width = (if isRotated90or270 then height photo else width photo),
           img_height = (if isRotated90or270 then width photo else height photo),
           img_rotation = rotation photo,
           img_src = dataUrl photo\<rparr>
      | Demo \<Rightarrow>
          (let pageWidthPrintPx = widthIn (currentPageSize st) * 96;
               pageHeightPrintPx = heightIn (currentPageSize st) * 96;
               scaleFactorW = pageWidthPrintPx / pageWidthPx src st;
               scaleFactorH = pageHeightPrintPx / pageHeightPx src st;
               scaleFactor = min scaleFactorW scaleFactorH
           in \<lparr>box_unit = Px,
               box_left = pos_x photo * scaleFactor,
               box_top = pos_y photo * scaleFactor,
               box_width = width photo * scaleFactor,
               box_height = height photo * scaleFactor,
               box_border = hasBorder photo,
               img_width = (if isRotated90or270 then height photo else width photo) * scaleFactor,
               img_height = (if isRotated90or270 then width photo else height photo) * scaleFactor,
               img_rotation = rotation photo,
               img_src = dataUrl photo\<rparr>))"

text \<open>The notification of an empty layout: a toast in the first file, an alert in the second.\<close>

definition emptyLayoutNotice :: "source \<Rightarrow> effect" where
  "emptyLayoutNotice src =
     (case src of
        Editor \<Rightarrow> Toast_error ''Add at least one photo to print''
      | Demo \<Rightarrow> Alert ''Add at least one photo to print'')"

text \<open>
  \<open>opened\<close> tells whether \<^verbatim>\<open>window.open\<close> returns a window. The document written to it is
  kept as the page size in inches and the list of boxes.
\<close>

definition handlePrint :: "source \<Rightarrow> bool \<Rightarrow> editor \<Rightarrow> editor" where
  "handlePrint src opened st =
     (if length (photos st) = 0 then st\<lparr>effects := effects st @ [emptyLayoutNotice src]\<rparr>
      else if \<not> opened then st\<lparr>effects := effects st @ [Window_open]\<rparr>
      else st\<lparr>effects := effects st @
             [Window_open,
              Document_write (widthIn (currentPageSize st)) (heightIn (currentPageSize st))
                (map (printBoxOf src st) (photos st)),
              Document_close]\<rparr>)"

text \<open>The effects that show the user a message.\<close>

fun isNotification :: "effect \<Rightarrow> bool" where
  "isNotification (Toast_success m) = True"
| "isNotification (Toast_error m) = True"
| "isNotification (Alert m) = True"
| "isNotification e = False"

section \<open>Border toggle\<close>

definition togglePhotoBorder :: "string \<Rightarrow> editor \<Rightarrow> editor" where
  "togglePhotoBorder photoId st =
     st\<lparr>photos := map (\<lambda>p. if id' p = photoId then p\<lparr>hasBorder := \<not> hasBorder p\<rparr> else p)
                      (photos st),
        contextMenu := None\<rparr>"

section \<open>The page-bounds invariant\<close>



text \<open>
  No clamp, and no rounding, changes a recentred position during four successive
  swap-dimensions rotations.
\<close>

definition neverClamped4 ::
  "(number \<Rightarrow> number) \<Rightarrow> number \<Rightarrow> number \<Rightarrow> PhotoOnPage \<Rightarrow> bool" where
  "neverClamped4 fl pw ph p \<longleftrightarrow>
     clampInactive fl pw ph p \<and>
     clampInactive fl pw ph (rotateOne fl False pw ph p) \<and>
     clampInactive fl pw ph (rotateOne fl False pw ph (rotateOne fl False pw ph p)) \<and>
     clampInactive fl pw ph
       (rotateOne fl False pw ph (rotateOne fl False pw ph (rotateOne fl False pw ph p)))"

definition neverRounded4 ::
  "(number \<Rightarrow> number) \<Rightarrow> number \<Rightarrow> number \<Rightarrow> PhotoOnPage \<Rightarrow> bool" where
  "neverRounded4 fl pw ph p \<longleftrightarrow>
     roundingInactive fl p \<and>
     roundingInactive fl (rotateOne fl False pw ph p) \<and>
     roundingInactive fl (rotateOne fl False pw ph (rotateOne fl False pw ph p)) \<and>
     roundingInactive fl
       (rotateOne fl False pw ph (rotateOne fl False pw ph (rotateOne fl False pw ph p)))"



section \<open>Sample data for the concrete instances\<close>

definition samplePhoto ::
  "string \<Rightarrow> number \<Rightarrow> number \<Rightarrow> number \<Rightarrow> number \<Rightarrow> int \<Rightarrow> PhotoOnPage" where
  "samplePhoto i px py w h r =
     \<lparr>id' = i, dataUrl = ''data:,'', pos_x = px, pos_y = py, width = w, height = h,
      originalWidth = 400, originalHeight = 600, hasBorder = True, rotation = r\<rparr>"

definition sampleEditor :: "pageKey \<Rightarrow> bool \<Rightarrow> PhotoOnPage list \<Rightarrow> string set \<Rightarrow> editor" where
  "sampleEditor k rip ps sel =
     initial\<lparr>pageSize := k, photos := ps, selectedPhotoIds := sel, dragging := True,
       rotateInPlace := rip\<rparr>"

definition sampleCrop :: "number \<Rightarrow> number \<Rightarrow> crop" where
  "sampleCrop w h = \<lparr>crop_id = ''1'', crop_dataUrl = ''data:,'', crop_width = w, crop_height = h\<rparr>"

definition sampleStamp :: "nat \<Rightarrow> string" where
  "sampleStamp i = ''1700000000000-0.5''"

section \<open>Properties\<close>

lemma smod_180_iff: "(r::int) smod 180 = 0 \<longleftrightarrow> r mod 180 = 0"
  by (auto simp: smod_int_alt_def sgn_if abs_if zmod_zminus1_eq_if split: if_splits)

lemma multiple_of_90_cases:
  assumes "(r::int) mod 90 = 0"
  shows "odd_multiple_of_90 r \<noteq> multiple_of_180 r"
proof -
  from assms obtain k where k: "r = 90 * k"
    by (auto simp: mod_eq_0_iff_dvd elim: dvdE)
  show ?thesis
  proof (cases "even k")
    case True
    then obtain j where "k = 2 * j" by (auto elim: evenE)
    with k have "r = 180 * j" by simp
    with k True show ?thesis
      by (simp add: odd_multiple_of_90_def multiple_of_180_def)
  next
    case False
    have "\<not> 180 dvd r"
    proof
      assume "180 dvd r"
      then obtain j where "r = 180 * j" by (auto elim: dvdE)
      with k have "k = 2 * j" by simp
      with False show False by simp
    qed
    with k False show ?thesis
      by (simp add: odd_multiple_of_90_def multiple_of_180_def mod_eq_0_iff_dvd)
  qed
qed

lemma odd_multiple_smod:
  "odd_multiple_of_90 r \<Longrightarrow> r smod 180 \<noteq> 0"
  using multiple_of_90_cases [of r]
  by (simp add: smod_180_iff odd_multiple_of_90_def multiple_of_180_def)

text \<open>
  C9. With rotate-in-place on and the rotation an odd multiple of 90, \<open>getBoundingBox\<close>
  returns the square of side max(width, height); with rotate-in-place off, or the rotation
  a multiple of 180, it returns (width, height). For a rotation that is a multiple of 90
  exactly one of the two cases applies.
\<close>

theorem getBoundingBox_cases:
  "(rip \<and> odd_multiple_of_90 (rotation p) \<longrightarrow>
      getBoundingBox rip p = (max (width p) (height p), max (width p) (height p)))
   \<and> (\<not> rip \<or> multiple_of_180 (rotation p) \<longrightarrow>
      getBoundingBox rip p = (width p, height p))
   \<and> (rotation p mod 90 = 0 \<longrightarrow>
      (rip \<and> odd_multiple_of_90 (rotation p)) \<noteq> (\<not> rip \<or> multiple_of_180 (rotation p)))"
proof (intro conjI impI)
  assume "rip \<and> odd_multiple_of_90 (rotation p)"
  then show "getBoundingBox rip p = (max (width p) (height p), max (width p) (height p))"
    using odd_multiple_smod [of "rotation p"] by (simp add: getBoundingBox_def Let_def)
next
  assume "\<not> rip \<or> multiple_of_180 (rotation p)"
  then show "getBoundingBox rip p = (width p, height p)"
    by (auto simp: getBoundingBox_def smod_180_iff multiple_of_180_def)
next
  assume "rotation p mod 90 = 0"
  then show "(rip \<and> odd_multiple_of_90 (rotation p)) \<noteq> (\<not> rip \<or> multiple_of_180 (rotation p))"
    using multiple_of_90_cases [of "rotation p"] by auto
qed

theorem getBoundingBox_cases_witness:
  "odd_multiple_of_90 90 \<and> getBoundingBox True (samplePhoto ''photo-1'' 0 0 100 300 90) = (300, 300)
   \<and> getBoundingBox False (samplePhoto ''photo-1'' 0 0 100 300 90) = (100, 300)
   \<and> multiple_of_180 180 \<and> getBoundingBox True (samplePhoto ''photo-1'' 0 0 100 300 180) = (100, 300)"
  using getBoundingBox_cases [of True "samplePhoto ''photo-1'' 0 0 100 300 90"]
    getBoundingBox_cases [of False "samplePhoto ''photo-1'' 0 0 100 300 90"]
    getBoundingBox_cases [of True "samplePhoto ''photo-1'' 0 0 100 300 180"]
  by (simp add: samplePhoto_def odd_multiple_of_90_def multiple_of_180_def getBoundingBox_def)

text \<open>
  C7. Deleting one photo removes every record with that id from the photo list and the id
  from the selection set, and keeps the other records as they were. Deleting the selection
  keeps exactly the records whose id is not selected, unchanged and in order, and empties
  the selection set.
\<close>

theorem delete_frame:
  "photos (handleDeletePhoto photoId st) = filter (\<lambda>p. id' p \<noteq> photoId) (photos st)
   \<and> photoId \<notin> id' ` set (photos (handleDeletePhoto photoId st))
   \<and> photoId \<notin> selectedPhotoIds (handleDeletePhoto photoId st)
   \<and> selectedPhotoIds (handleDeletePhoto photoId st) = selectedPhotoIds st - {photoId}
   \<and> photos (handleDeleteSelected src st) =
       filter (\<lambda>p. id' p \<notin> selectedPhotoIds st) (photos st)
   \<and> set (photos (handleDeleteSelected src st)) =
       set (photos st) - {p. id' p \<in> selectedPhotoIds st}
   \<and> selectedPhotoIds (handleDeleteSelected src st) = {}"
  by (auto simp: handleDeletePhoto_def handleDeleteSelected_def)

text \<open>
  C10. Clear-all empties the photo list and leaves the selection set as it was, so a
  non-empty selection then holds an id of no placed photo; single delete and
  delete-selected do remove the deleted ids from the selection set.
\<close>

theorem clearAll_keeps_selection:
  "photos (clearAll st) = []
   \<and> selectedPhotoIds (clearAll st) = selectedPhotoIds st
   \<and> (selectedPhotoIds st \<noteq> {} \<longrightarrow>
        (\<exists>i. i \<in> selectedPhotoIds (clearAll st) \<and> i \<notin> id' ` set (photos (clearAll st))))
   \<and> photoId \<notin> selectedPhotoIds (handleDeletePhoto photoId st)
   \<and> selectedPhotoIds (handleDeleteSelected src st) = {}"
  by (auto simp: clearAll_def handleDeletePhoto_def handleDeleteSelected_def)

theorem clearAll_keeps_selection_witness:
  "selectedPhotoIds (initial\<lparr>photos := [samplePhoto ''photo-1'' 0 0 100 300 0],
       selectedPhotoIds := {''photo-1''}\<rparr>) \<noteq> {}
   \<and> photos (clearAll (initial\<lparr>photos := [samplePhoto ''photo-1'' 0 0 100 300 0],
       selectedPhotoIds := {''photo-1''}\<rparr>)) = []
   \<and> ''photo-1'' \<in> selectedPhotoIds (clearAll (initial\<lparr>photos := [samplePhoto ''photo-1'' 0 0 100 300 0],
       selectedPhotoIds := {''photo-1''}\<rparr>))"
  using clearAll_keeps_selection [of "initial\<lparr>photos := [samplePhoto ''photo-1'' 0 0 100 300 0],
       selectedPhotoIds := {''photo-1''}\<rparr>" "''photo-1''" Editor]
  by (simp add: clearAll_def initial_def)

subsection \<open>Rotation angles\<close>

lemma smod_nonneg: "0 \<le> a \<Longrightarrow> 0 < b \<Longrightarrow> (a::int) smod b = a mod b"
  by (simp add: smod_int_alt_def sgn_if)

lemma mod360_nonneg: "0 \<le> (a::int) mod 360"
  by (rule pos_mod_sign) simp

lemma mod360_less: "(a::int) mod 360 < 360"
  by (rule pos_mod_bound) simp

lemma advance_smod: "0 \<le> (a::int) \<Longrightarrow> (a + 90) smod 360 = (a + 90) mod 360"
  by (rule smod_nonneg) simp_all

lemma advance_twice: "(((r::int) + a) mod 360 + 90) mod 360 = (r + (a + 90)) mod 360"
  by (simp only: mod_add_left_eq add.assoc)

lemma rotation_four_mod:
  assumes "0 \<le> (r::int)" "r < 360"
  shows "((((r + 90) mod 360 + 90) mod 360 + 90) mod 360 + 90) mod 360 = r"
proof -
  have "((((r + 90) mod 360 + 90) mod 360 + 90) mod 360 + 90) mod 360
      = (r + (90 + 90 + 90 + 90)) mod 360"
    by (simp only: advance_twice add.assoc)
  also have "\<dots> = (r + 360) mod 360" by (simp only: numeral_plus_numeral) simp
  also have "\<dots> = r mod 360" by (rule mod_add_self2)
  also have "\<dots> = r" using assms by (rule mod_pos_pos_trivial)
  finally show ?thesis .
qed

lemma rotation_four:
  assumes "0 \<le> (r::int)" "r < 360"
  shows "((((r + 90) smod 360 + 90) smod 360 + 90) smod 360 + 90) smod 360 = r"
proof -
  have "(r + 90) smod 360 = (r + 90) mod 360"
    using assms(1) by (rule advance_smod)
  moreover have "((r + 90) mod 360 + 90) smod 360 = ((r + 90) mod 360 + 90) mod 360"
    by (rule advance_smod) (rule mod360_nonneg)
  moreover have "(((r + 90) mod 360 + 90) mod 360 + 90) smod 360
      = (((r + 90) mod 360 + 90) mod 360 + 90) mod 360"
    by (rule advance_smod) (rule mod360_nonneg)
  moreover have "((((r + 90) mod 360 + 90) mod 360 + 90) mod 360 + 90) smod 360
      = ((((r + 90) mod 360 + 90) mod 360 + 90) mod 360 + 90) mod 360"
    by (rule advance_smod) (rule mod360_nonneg)
  ultimately show ?thesis using rotation_four_mod [OF assms] by (simp only:)
qed

subsection \<open>One rotation of one photo\<close>

lemma rotateOne_in_place:
  "rotateOne fl True pw ph p = p\<lparr>rotation := (rotation p + 90) smod 360\<rparr>"
  by (simp add: rotateOne_def)

lemma rotateOne_id: "id' (rotateOne fl rip pw ph p) = id' p"
  by (simp add: rotateOne_def Let_def)

lemma rotateOne_rotation: "rotation (rotateOne fl rip pw ph p) = (rotation p + 90) smod 360"
  by (simp add: rotateOne_def Let_def)

lemma rotateOne_valid:
  assumes "validRotation p"
  shows "validRotation (rotateOne fl rip pw ph p)"
proof -
  have "(rotation p + 90) smod 360 = (rotation p + 90) mod 360"
    using assms by (intro advance_smod) (simp add: validRotation_def)
  then show ?thesis
    using mod360_nonneg [of "rotation p + 90"] mod360_less [of "rotation p + 90"]
    by (simp only: validRotation_def rotateOne_rotation)
qed

lemma rotateOne_in_place_four:
  assumes "validRotation p"
  shows "rotateOne fl True pw ph (rotateOne fl True pw ph (rotateOne fl True pw ph
           (rotateOne fl True pw ph p))) = p"
  using rotation_four [of "rotation p"] assms
  by (simp add: rotateOne_in_place validRotation_def)

text \<open>Whatever the clamps and the rounding do, a swap rotation exchanges width and height.\<close>

lemma rotateOne_swap_shape:
  "\<exists>a b. rotateOne fl False pw ph p =
     p\<lparr>rotation := (rotation p + 90) smod 360, width := height p, height := width p,
       pos_x := a, pos_y := b\<rparr>"
  by (intro exI) (simp add: rotateOne_def Let_def)

lemma rotateOne_swap_twice_shape:
  "\<exists>a b. rotateOne fl False pw ph (rotateOne fl False pw ph p) =
     p\<lparr>rotation := ((rotation p + 90) smod 360 + 90) smod 360, pos_x := a, pos_y := b\<rparr>"
proof -
  define q where "q = rotateOne fl False pw ph p"
  obtain a b where q: "q = p\<lparr>rotation := (rotation p + 90) smod 360, width := height p,
      height := width p, pos_x := a, pos_y := b\<rparr>"
    unfolding q_def using rotateOne_swap_shape [of fl pw ph p] by blast
  obtain c d where "rotateOne fl False pw ph q =
      q\<lparr>rotation := (rotation q + 90) smod 360, width := height q, height := width q,
        pos_x := c, pos_y := d\<rparr>"
    using rotateOne_swap_shape [of fl pw ph q] by blast
  then have "rotateOne fl False pw ph q =
      p\<lparr>rotation := ((rotation p + 90) smod 360 + 90) smod 360, pos_x := c, pos_y := d\<rparr>"
    by (simp add: q)
  then show ?thesis unfolding q_def by blast
qed

lemma rotateOne_swap_four_unplaced:
  assumes "validRotation p"
  shows "unplaced (rotateOne fl False pw ph (rotateOne fl False pw ph (rotateOne fl False pw ph
           (rotateOne fl False pw ph p)))) = unplaced p"
proof -
  define q where "q = rotateOne fl False pw ph (rotateOne fl False pw ph p)"
  obtain a b where q: "q = p\<lparr>rotation := ((rotation p + 90) smod 360 + 90) smod 360,
      pos_x := a, pos_y := b\<rparr>"
    unfolding q_def using rotateOne_swap_twice_shape [of fl pw ph p] by blast
  obtain c d where "rotateOne fl False pw ph (rotateOne fl False pw ph q) =
      q\<lparr>rotation := ((rotation q + 90) smod 360 + 90) smod 360, pos_x := c, pos_y := d\<rparr>"
    using rotateOne_swap_twice_shape [of fl pw ph q] by blast
  then have "unplaced (rotateOne fl False pw ph (rotateOne fl False pw ph q)) = unplaced p"
    using rotation_four [of "rotation p"] assms
    by (simp add: q validRotation_def unplaced_def)
  then show ?thesis unfolding q_def .
qed

lemma rotateOne_swap_unclamped:
  assumes "clampInactive fl pw ph p" and "roundingInactive fl p"
  shows "rotateOne fl False pw ph p =
    p\<lparr>rotation := (rotation p + 90) smod 360, width := height p, height := width p,
      pos_x := pos_x p + width p / 2 - height p / 2,
      pos_y := pos_y p + height p / 2 - width p / 2\<rparr>"
proof -
  from assms have "pos_x (rotateOne fl False pw ph p) = pos_x p + width p / 2 - height p / 2"
    and "pos_y (rotateOne fl False pw ph p) = pos_y p + height p / 2 - width p / 2"
    by (simp_all add: clampInactive_def roundingInactive_def recentered_def)
  moreover have "rotateOne fl False pw ph p =
    p\<lparr>rotation := (rotation p + 90) smod 360, width := height p, height := width p,
      pos_x := pos_x (rotateOne fl False pw ph p), pos_y := pos_y (rotateOne fl False pw ph p)\<rparr>"
    by (simp add: rotateOne_def Let_def)
  ultimately show ?thesis by simp
qed

lemma rotateOne_swap_twice:
  assumes "clampInactive fl pw ph p" "roundingInactive fl p"
    and "clampInactive fl pw ph (rotateOne fl False pw ph p)"
    and "roundingInactive fl (rotateOne fl False pw ph p)"
  shows "rotateOne fl False pw ph (rotateOne fl False pw ph p) =
    p\<lparr>rotation := ((rotation p + 90) smod 360 + 90) smod 360\<rparr>"
proof -
  define q where "q = rotateOne fl False pw ph p"
  have q: "q = p\<lparr>rotation := (rotation p + 90) smod 360, width := height p, height := width p,
      pos_x := pos_x p + width p / 2 - height p / 2,
      pos_y := pos_y p + height p / 2 - width p / 2\<rparr>"
    unfolding q_def using assms(1,2) by (rule rotateOne_swap_unclamped)
  have "rotateOne fl False pw ph q =
    q\<lparr>rotation := (rotation q + 90) smod 360, width := height q, height := width q,
      pos_x := pos_x q + width q / 2 - height q / 2,
      pos_y := pos_y q + height q / 2 - width q / 2\<rparr>"
    using assms(3,4) unfolding q_def by (rule rotateOne_swap_unclamped)
  also have "\<dots> = p\<lparr>rotation := ((rotation p + 90) smod 360 + 90) smod 360\<rparr>"
    by (simp add: q)
  finally show ?thesis unfolding q_def .
qed

lemma rotateOne_swap_four:
  assumes "validRotation p" "neverClamped4 fl pw ph p" "neverRounded4 fl pw ph p"
  shows "rotateOne fl False pw ph (rotateOne fl False pw ph (rotateOne fl False pw ph
           (rotateOne fl False pw ph p))) = p"
proof -
  define q where "q = rotateOne fl False pw ph (rotateOne fl False pw ph p)"
  have q: "q = p\<lparr>rotation := ((rotation p + 90) smod 360 + 90) smod 360\<rparr>"
    unfolding q_def using assms(2,3)
    by (intro rotateOne_swap_twice) (simp_all add: neverClamped4_def neverRounded4_def)
  have "rotateOne fl False pw ph (rotateOne fl False pw ph q) =
      q\<lparr>rotation := ((rotation q + 90) smod 360 + 90) smod 360\<rparr>"
    using assms(2,3) unfolding q_def
    by (intro rotateOne_swap_twice) (simp_all add: neverClamped4_def neverRounded4_def)
  also have "\<dots> = p"
    using rotation_four [of "rotation p"] assms(1) by (simp add: q validRotation_def)
  finally show ?thesis unfolding q_def .
qed

subsection \<open>Rotation on the editor state\<close>

lemma rotatePhoto_photos:
  "photos (rotatePhoto src photoId st) =
     map (\<lambda>p. if id' p \<noteq> photoId then p
              else rotateOne fl64 (rotateInPlace st) (pageWidthPx src st) (pageHeightPx src st) p)
       (photos st)"
  by (simp add: rotatePhoto_def)

lemma rotatePhoto_frame:
  "rotateInPlace (rotatePhoto src photoId st) = rotateInPlace st"
  "pageWidthPx src' (rotatePhoto src photoId st) = pageWidthPx src' st"
  "pageHeightPx src' (rotatePhoto src photoId st) = pageHeightPx src' st"
  "selectedPhotoIds (rotatePhoto src photoId st) = selectedPhotoIds st"
  "pageSize (rotatePhoto src photoId st) = pageSize st"
  by (simp_all add: rotatePhoto_def pageWidthPx_def pageHeightPx_def currentPageSize_def)

lemma rotatePhoto_four_photos:
  "photos (rotatePhoto src photoId (rotatePhoto src photoId (rotatePhoto src photoId
      (rotatePhoto src photoId st)))) =
   map (\<lambda>p. if id' p \<noteq> photoId then p
            else (let f = rotateOne fl64 (rotateInPlace st) (pageWidthPx src st)
                            (pageHeightPx src st)
                  in f (f (f (f p)))))
     (photos st)"
  by (simp add: rotatePhoto_photos rotatePhoto_frame rotateOne_id Let_def o_def)

text \<open>
  C5. In rotate-in-place mode a rotate call replaces the rotation of the photo with the
  given id by (rotation + 90) % 360 and changes nothing else in the photo list; four calls
  give back the original photo list, for photos whose angle lies in [0, 360).
\<close>

theorem rotate_in_place_cycle:
  assumes "rotateInPlace st"
  shows "photos (rotatePhoto src photoId st) =
           map (\<lambda>p. if id' p = photoId then p\<lparr>rotation := (rotation p + 90) smod 360\<rparr> else p)
             (photos st)
       \<and> ((\<forall>p \<in> set (photos st). id' p = photoId \<longrightarrow> validRotation p) \<longrightarrow>
            photos (rotatePhoto src photoId st) =
              map (\<lambda>p. if id' p = photoId then p\<lparr>rotation := (rotation p + 90) mod 360\<rparr> else p)
                (photos st)
          \<and> photos (rotatePhoto src photoId (rotatePhoto src photoId (rotatePhoto src photoId
                (rotatePhoto src photoId st)))) = photos st)"
proof (intro conjI impI)
  show 1: "photos (rotatePhoto src photoId st) =
           map (\<lambda>p. if id' p = photoId then p\<lparr>rotation := (rotation p + 90) smod 360\<rparr> else p)
             (photos st)"
    using assms by (simp add: rotatePhoto_photos rotateOne_in_place)
  assume v: "\<forall>p \<in> set (photos st). id' p = photoId \<longrightarrow> validRotation p"
  show "photos (rotatePhoto src photoId st) =
          map (\<lambda>p. if id' p = photoId then p\<lparr>rotation := (rotation p + 90) mod 360\<rparr> else p)
            (photos st)"
    unfolding 1 using v by (auto simp: validRotation_def advance_smod)
  show "photos (rotatePhoto src photoId (rotatePhoto src photoId (rotatePhoto src photoId
          (rotatePhoto src photoId st)))) = photos st"
    unfolding rotatePhoto_four_photos using v assms
    by (intro map_idI) (simp add: Let_def rotateOne_in_place_four)
qed

theorem rotate_in_place_cycle_witness:
  "rotateInPlace (sampleEditor Key_4x6 True [samplePhoto ''photo-1'' 10 20 100 300 270] {})
   \<and> validRotation (samplePhoto ''photo-1'' 10 20 100 300 270)
   \<and> photos (rotatePhoto Editor ''photo-1''
        (sampleEditor Key_4x6 True [samplePhoto ''photo-1'' 10 20 100 300 270] {}))
      = [samplePhoto ''photo-1'' 10 20 100 300 0]
   \<and> photos (rotatePhoto Editor ''photo-1'' (rotatePhoto Editor ''photo-1''
        (rotatePhoto Editor ''photo-1'' (rotatePhoto Editor ''photo-1''
          (sampleEditor Key_4x6 True [samplePhoto ''photo-1'' 10 20 100 300 270] {})))))
      = [samplePhoto ''photo-1'' 10 20 100 300 270]"
  using rotate_in_place_cycle
    [of "sampleEditor Key_4x6 True [samplePhoto ''photo-1'' 10 20 100 300 270] {}"
      Editor "''photo-1''"]
  by (simp add: sampleEditor_def initial_def samplePhoto_def validRotation_def)

text \<open>
  C4, as the code has it. In swap-dimensions mode four rotate calls give back the rotation,
  width and height of every photo (angles in [0, 360)); they give back the whole photo
  list, x and y included, when in each of the four steps neither the clamp nor the
  rounding of the arithmetic changes the recentred position.
\<close>

theorem rotate_swap_cycle:
  assumes "\<not> rotateInPlace st"
    and "\<forall>p \<in> set (photos st). id' p = photoId \<longrightarrow> validRotation p"
  shows "map unplaced (photos (rotatePhoto src photoId (rotatePhoto src photoId
           (rotatePhoto src photoId (rotatePhoto src photoId st))))) = map unplaced (photos st)
       \<and> ((\<forall>p \<in> set (photos st). id' p = photoId \<longrightarrow>
              neverClamped4 fl64 (pageWidthPx src st) (pageHeightPx src st) p \<and>
              neverRounded4 fl64 (pageWidthPx src st) (pageHeightPx src st) p) \<longrightarrow>
            photos (rotatePhoto src photoId (rotatePhoto src photoId
              (rotatePhoto src photoId (rotatePhoto src photoId st)))) = photos st)"
proof (intro conjI impI)
  show "map unplaced (photos (rotatePhoto src photoId (rotatePhoto src photoId
           (rotatePhoto src photoId (rotatePhoto src photoId st))))) = map unplaced (photos st)"
    unfolding rotatePhoto_four_photos map_map using assms
    by (intro map_cong) (simp_all add: Let_def rotateOne_swap_four_unplaced)
next
  assume "\<forall>p \<in> set (photos st). id' p = photoId \<longrightarrow>
              neverClamped4 fl64 (pageWidthPx src st) (pageHeightPx src st) p \<and>
              neverRounded4 fl64 (pageWidthPx src st) (pageHeightPx src st) p"
  with assms show "photos (rotatePhoto src photoId (rotatePhoto src photoId
              (rotatePhoto src photoId (rotatePhoto src photoId st)))) = photos st"
    unfolding rotatePhoto_four_photos
    by (intro map_idI) (simp add: Let_def rotateOne_swap_four)
qed

lemma samplePhoto_id: "id' (samplePhoto i px py w h r) = i"
  by (simp add: samplePhoto_def)

lemma samplePhoto_position:
  "pos_x (samplePhoto i px py w h r) = px" "pos_y (samplePhoto i px py w h r) = py"
  by (simp_all add: samplePhoto_def)

lemma sampleEditor_rotations:
  assumes "rotateOne fl64 False (pageWidthPx src (sampleEditor k False [p0] sel))
             (pageHeightPx src (sampleEditor k False [p0] sel)) p0 = p1"
    and "rotateOne fl64 False (pageWidthPx src (sampleEditor k False [p0] sel))
             (pageHeightPx src (sampleEditor k False [p0] sel)) p1 = p2"
    and "rotateOne fl64 False (pageWidthPx src (sampleEditor k False [p0] sel))
             (pageHeightPx src (sampleEditor k False [p0] sel)) p2 = p3"
    and "rotateOne fl64 False (pageWidthPx src (sampleEditor k False [p0] sel))
             (pageHeightPx src (sampleEditor k False [p0] sel)) p3 = p4"
    and "id' p0 = photoId"
  shows "photos (rotatePhoto src photoId (sampleEditor k False [p0] sel)) = [p1]"
    and "photos (rotatePhoto src photoId (rotatePhoto src photoId (rotatePhoto src photoId
           (rotatePhoto src photoId (sampleEditor k False [p0] sel))))) = [p4]"
proof -
  have st: "photos (sampleEditor k False [p0] sel) = [p0]"
    "rotateInPlace (sampleEditor k False [p0] sel) = False"
    by (simp_all add: sampleEditor_def)
  show "photos (rotatePhoto src photoId (sampleEditor k False [p0] sel)) = [p1]"
    unfolding rotatePhoto_photos st using assms(1,5) by simp
  show "photos (rotatePhoto src photoId (rotatePhoto src photoId (rotatePhoto src photoId
           (rotatePhoto src photoId (sampleEditor k False [p0] sel))))) = [p4]"
    unfolding rotatePhoto_four_photos st using assms by (simp add: Let_def)
qed

lemma neverClamped4_steps:
  assumes "rotateOne fl False pw ph p0 = p1" "rotateOne fl False pw ph p1 = p2"
    and "rotateOne fl False pw ph p2 = p3" "rotateOne fl False pw ph p3 = p4"
    and "recentered fl p0 = (pos_x p1, pos_y p1)" "recentered fl p1 = (pos_x p2, pos_y p2)"
    and "recentered fl p2 = (pos_x p3, pos_y p3)" "recentered fl p3 = (pos_x p4, pos_y p4)"
  shows "neverClamped4 fl pw ph p0"
  using assms by (simp add: neverClamped4_def clampInactive_def)

lemma neverRounded4_steps:
  assumes "rotateOne fl False pw ph p0 = p1" "rotateOne fl False pw ph p1 = p2"
    and "rotateOne fl False pw ph p2 = p3"
    and "recentered fl p0 = recentered (\<lambda>v. v) p0" "recentered fl p1 = recentered (\<lambda>v. v) p1"
    and "recentered fl p2 = recentered (\<lambda>v. v) p2" "recentered fl p3 = recentered (\<lambda>v. v) p3"
  shows "neverRounded4 fl pw ph p0"
  using assms by (simp add: neverRounded4_def roundingInactive_def)

theorem rotate_swap_cycle_witness:
  "\<not> rotateInPlace (sampleEditor Key_4x6 False [samplePhoto ''photo-1'' 200 200 100 300 0] {})
   \<and> validRotation (samplePhoto ''photo-1'' 200 200 100 300 0)
   \<and> neverClamped4 fl64 1200 1800 (samplePhoto ''photo-1'' 200 200 100 300 0)
   \<and> neverRounded4 fl64 1200 1800 (samplePhoto ''photo-1'' 200 200 100 300 0)
   \<and> photos (rotatePhoto Demo ''photo-1''
        (sampleEditor Key_4x6 False [samplePhoto ''photo-1'' 200 200 100 300 0] {}))
      = [samplePhoto ''photo-1'' 100 300 300 100 90]
   \<and> photos (rotatePhoto Demo ''photo-1'' (rotatePhoto Demo ''photo-1''
        (rotatePhoto Demo ''photo-1'' (rotatePhoto Demo ''photo-1''
          (sampleEditor Key_4x6 False [samplePhoto ''photo-1'' 200 200 100 300 0] {})))))
      = [samplePhoto ''photo-1'' 200 200 100 300 0]"
proof -
  let ?p0 = "samplePhoto ''photo-1'' 200 200 100 300 0"
  let ?p1 = "samplePhoto ''photo-1'' 100 300 300 100 90"
  let ?p2 = "samplePhoto ''photo-1'' 200 200 100 300 180"
  let ?p3 = "samplePhoto ''photo-1'' 100 300 300 100 270"
  let ?st = "sampleEditor Key_4x6 False [?p0] {}"
  have pw: "pageWidthPx Demo ?st = 1200" and ph: "pageHeightPx Demo ?st = 1800"
    by (simp_all add: pageWidthPx_def pageHeightPx_def currentPageSize_def sampleEditor_def)
  have e: "photos ?st = [?p0]" and i: "\<not> rotateInPlace ?st"
    by (simp_all add: sampleEditor_def)
  have v: "validRotation ?p0"
    by (simp add: validRotation_def samplePhoto_def)
  have r1: "rotateOne fl64 False 1200 1800 ?p0 = ?p1" by code_simp
  have r2: "rotateOne fl64 False 1200 1800 ?p1 = ?p2" by code_simp
  have r3: "rotateOne fl64 False 1200 1800 ?p2 = ?p3" by code_simp
  have r4: "rotateOne fl64 False 1200 1800 ?p3 = ?p0" by code_simp
  have c0: "recentered fl64 ?p0 = (100, 300)" by code_simp
  have c1: "recentered fl64 ?p1 = (200, 200)" by code_simp
  have c2: "recentered fl64 ?p2 = (100, 300)" by code_simp
  have c3: "recentered fl64 ?p3 = (200, 200)" by code_simp
  have x0: "recentered (\<lambda>v. v) ?p0 = (100, 300)" "recentered (\<lambda>v. v) ?p1 = (200, 200)"
    "recentered (\<lambda>v. v) ?p2 = (100, 300)" "recentered (\<lambda>v. v) ?p3 = (200, 200)"
    by (simp_all add: recentered_def samplePhoto_def)
  have n: "neverClamped4 fl64 1200 1800 ?p0"
    using r1 r2 r3 r4 by (rule neverClamped4_steps) (simp_all add: c0 c1 c2 c3 samplePhoto_position)
  have r: "neverRounded4 fl64 1200 1800 ?p0"
    using r1 r2 r3 by (rule neverRounded4_steps) (simp_all add: c0 c1 c2 c3 x0)
  have s: "photos (rotatePhoto Demo ''photo-1'' ?st) = [?p1]"
    by (rule sampleEditor_rotations(1) [where ?p2.0 = ?p2 and ?p3.0 = ?p3 and ?p4.0 = ?p0])
      (simp_all only: pw ph r1 r2 r3 r4 samplePhoto_id)
  have "photos (rotatePhoto Demo ''photo-1'' (rotatePhoto Demo ''photo-1''
        (rotatePhoto Demo ''photo-1'' (rotatePhoto Demo ''photo-1'' ?st)))) = [?p0]"
    using rotate_swap_cycle [of ?st "''photo-1''" Demo, THEN conjunct2] i v n r
    unfolding pw ph e by simp
  with i v n r s show ?thesis by (simp only: simp_thms)
qed

text \<open>
  C4 as stated fails: no clamp changes a recentred position, yet rounding does. On the
  1200 by 1800 page of the second file a 400 by 600 photo at y = 786.6666666666666 comes
  back at y = 786.6666666666665 after four rotations; on the 384 by 576 page of the first
  file a 100 by 101 photo at x = 120.3 comes back at x = 120.30000000000001. The
  positions are written as the fractions that these doubles are.
\<close>

theorem rotate_swap_counterexample:
  "\<not> rotateInPlace (sampleEditor Key_4x6 False
       [samplePhoto ''photo-1'' 200 (6919593177470293 / 8796093022208) 400 600 0] {})
   \<and> validRotation (samplePhoto ''photo-1'' 200 (6919593177470293 / 8796093022208) 400 600 0)
   \<and> neverClamped4 fl64 1200 1800
       (samplePhoto ''photo-1'' 200 (6919593177470293 / 8796093022208) 400 600 0)
   \<and> photos (rotatePhoto Demo ''photo-1'' (rotatePhoto Demo ''photo-1''
        (rotatePhoto Demo ''photo-1'' (rotatePhoto Demo ''photo-1''
          (sampleEditor Key_4x6 False
            [samplePhoto ''photo-1'' 200 (6919593177470293 / 8796093022208) 400 600 0] {})))))
      = [samplePhoto ''photo-1'' 200 (1729898294367573 / 2199023255552) 400 600 0]
   \<and> (1729898294367573 / 2199023255552 :: rat) \<noteq> 6919593177470293 / 8796093022208
   \<and> neverClamped4 fl64 384 576
       (samplePhoto ''photo-1'' (8465359924572979 / 70368744177664) 100 100 101 0)
   \<and> photos (rotatePhoto Editor ''photo-1'' (rotatePhoto Editor ''photo-1''
        (rotatePhoto Editor ''photo-1'' (rotatePhoto Editor ''photo-1''
          (sampleEditor Key_4x6 False
            [samplePhoto ''photo-1'' (8465359924572979 / 70368744177664) 100 100 101 0] {})))))
      = [samplePhoto ''photo-1'' (2116339981143245 / 17592186044416) 100 100 101 0]
   \<and> (2116339981143245 / 17592186044416 :: rat) \<noteq> 8465359924572979 / 70368744177664"
proof -
  let ?y0 = "6919593177470293 / 8796093022208 :: rat"
  let ?y1 = "1949800619922773 / 2199023255552 :: rat"
  let ?y2 = "1729898294367573 / 2199023255552 :: rat"
  let ?p0 = "samplePhoto ''photo-1'' 200 ?y0 400 600 0"
  let ?p1 = "samplePhoto ''photo-1'' 100 ?y1 600 400 90"
  let ?p2 = "samplePhoto ''photo-1'' 200 ?y2 400 600 180"
  let ?p3 = "samplePhoto ''photo-1'' 100 ?y1 600 400 270"
  let ?p4 = "samplePhoto ''photo-1'' 200 ?y2 400 600 0"
  let ?st = "sampleEditor Key_4x6 False [?p0] {}"
  have pw: "pageWidthPx Demo ?st = 1200" and ph: "pageHeightPx Demo ?st = 1800"
    by (simp_all add: pageWidthPx_def pageHeightPx_def currentPageSize_def sampleEditor_def)
  have i: "\<not> rotateInPlace ?st" by (simp add: sampleEditor_def)
  have v: "validRotation ?p0" by (simp add: validRotation_def samplePhoto_def)
  have r1: "rotateOne fl64 False 1200 1800 ?p0 = ?p1" by code_simp
  have r2: "rotateOne fl64 False 1200 1800 ?p1 = ?p2" by code_simp
  have r3: "rotateOne fl64 False 1200 1800 ?p2 = ?p3" by code_simp
  have r4: "rotateOne fl64 False 1200 1800 ?p3 = ?p4" by code_simp
  have c0: "recentered fl64 ?p0 = (100, ?y1)" by code_simp
  have c1: "recentered fl64 ?p1 = (200, ?y2)" by code_simp
  have c2: "recentered fl64 ?p2 = (100, ?y1)" by code_simp
  have c3: "recentered fl64 ?p3 = (200, ?y2)" by code_simp
  have n: "neverClamped4 fl64 1200 1800 ?p0"
    using r1 r2 r3 r4 by (rule neverClamped4_steps) (simp_all only: c0 c1 c2 c3 samplePhoto_position)
  have f: "photos (rotatePhoto Demo ''photo-1'' (rotatePhoto Demo ''photo-1''
        (rotatePhoto Demo ''photo-1'' (rotatePhoto Demo ''photo-1'' ?st)))) = [?p4]"
    by (rule sampleEditor_rotations(2) [where ?p1.0 = ?p1 and ?p2.0 = ?p2 and ?p3.0 = ?p3
        and ?p4.0 = ?p4])
      (simp_all only: pw ph r1 r2 r3 r4 samplePhoto_id)
  have d: "?y2 \<noteq> ?y0" by simp
  let ?x0 = "8465359924572979 / 70368744177664 :: rat"
  let ?x1 = "2107543888121037 / 17592186044416 :: rat"
  let ?x2 = "2116339981143245 / 17592186044416 :: rat"
  let ?q0 = "samplePhoto ''photo-1'' ?x0 100 100 101 0"
  let ?q1 = "samplePhoto ''photo-1'' ?x1 (201 / 2) 101 100 90"
  let ?q2 = "samplePhoto ''photo-1'' ?x2 100 100 101 180"
  let ?q3 = "samplePhoto ''photo-1'' ?x1 (201 / 2) 101 100 270"
  let ?q4 = "samplePhoto ''photo-1'' ?x2 100 100 101 0"
  let ?se = "sampleEditor Key_4x6 False [?q0] {}"
  have qw: "pageWidthPx Editor ?se = 384" and qh: "pageHeightPx Editor ?se = 576"
    by (simp_all add: pageWidthPx_def pageHeightPx_def currentPageSize_def sampleEditor_def)
  have s1: "rotateOne fl64 False 384 576 ?q0 = ?q1" by code_simp
  have s2: "rotateOne fl64 False 384 576 ?q1 = ?q2" by code_simp
  have s3: "rotateOne fl64 False 384 576 ?q2 = ?q3" by code_simp
  have s4: "rotateOne fl64 False 384 576 ?q3 = ?q4" by code_simp
  have e0: "recentered fl64 ?q0 = (?x1, 201 / 2)" by code_simp
  have e1: "recentered fl64 ?q1 = (?x2, 100)" by code_simp
  have e2: "recentered fl64 ?q2 = (?x1, 201 / 2)" by code_simp
  have e3: "recentered fl64 ?q3 = (?x2, 100)" by code_simp
  have m: "neverClamped4 fl64 384 576 ?q0"
    using s1 s2 s3 s4 by (rule neverClamped4_steps) (simp_all only: e0 e1 e2 e3 samplePhoto_position)
  have g: "photos (rotatePhoto Editor ''photo-1'' (rotatePhoto Editor ''photo-1''
        (rotatePhoto Editor ''photo-1'' (rotatePhoto Editor ''photo-1'' ?se)))) = [?q4]"
    by (rule sampleEditor_rotations(2) [where ?p1.0 = ?q1 and ?p2.0 = ?q2 and ?p3.0 = ?q3
        and ?p4.0 = ?q4])
      (simp_all only: qw qh s1 s2 s3 s4 samplePhoto_id)
  have h: "?x2 \<noteq> ?x0" by simp
  from i v n f d m g h show ?thesis by (simp only: simp_thms)
qed

subsection \<open>Bounds under drag, nudge and rotation\<close>














lemma list_all_map_keeps:
  assumes "list_all P xs" and "\<And>x. x \<in> set xs \<Longrightarrow> P x \<Longrightarrow> P (f x)"
  shows "list_all P (map f xs)"
  using assms by (simp add: list_all_iff)

lemma handleMouseMove_cases:
  "handleMouseMove src memo rect e st = st \<or>
   (\<exists>deltaX deltaY. handleMouseMove src memo rect e st =
      st\<lparr>photos := map (\<lambda>p. if id' p \<in> selectedPhotoIds st
                              then dragOne (seenRotateInPlace src memo st) (pageWidthPx src st)
                                     (pageHeightPx src st) deltaX deltaY p
                              else p) (photos st)\<rparr>)"
  by (auto simp: handleMouseMove_def Let_def split: option.splits)











subsection \<open>Group drag\<close>









subsection \<open>The packing loop\<close>

lemma packLoop_0:
  "packLoop src t itemWidth itemHeight pageWidth mk 0 =
     (marginLeft t, marginTop t, itemHeight, [])"
  by (simp add: packLoop_def)

lemma packLoop_Suc:
  "packLoop src t itemWidth itemHeight pageWidth mk (Suc n) =
     packStep src t itemWidth itemHeight pageWidth mk n
       (packLoop src t itemWidth itemHeight pageWidth mk n)"
  by (simp add: packLoop_def)

lemma rowCapacity_pos:
  assumes "0 < itemWidth + gapX t"
    and "marginLeft t + itemWidth + marginRight t \<le> pageWidth"
  shows "0 < rowCapacity t itemWidth pageWidth"
proof -
  have "1 \<le> (pageWidth - marginLeft t - marginRight t + gapX t) / (itemWidth + gapX t)"
    using assms by (simp add: pos_le_divide_eq)
  then have "1 \<le> \<lfloor>(pageWidth - marginLeft t - marginRight t + gapX t) / (itemWidth + gapX t)\<rfloor>"
    by (simp add: le_floor_iff)
  then show ?thesis by (simp add: rowCapacity_def)
qed

lemma wrap_iff_row_full:
  assumes pos: "0 < itemWidth + gapX t"
    and k: "k < rowCapacity t itemWidth pageWidth"
  shows "pageWidth < marginLeft t + of_nat (Suc k) * (itemWidth + gapX t) + itemWidth + marginRight t
     \<longleftrightarrow> Suc k = rowCapacity t itemWidth pageWidth"
proof -
  let ?q = "(pageWidth - marginLeft t - marginRight t + gapX t) / (itemWidth + gapX t)"
  have fl: "0 \<le> \<lfloor>?q\<rfloor>" using k unfolding rowCapacity_def by linarith
  have "pageWidth < marginLeft t + of_nat (Suc k) * (itemWidth + gapX t) + itemWidth + marginRight t
     \<longleftrightarrow> pageWidth - marginLeft t - marginRight t + gapX t
           < of_nat (Suc (Suc k)) * (itemWidth + gapX t)"
    by (simp add: algebra_simps)
  also have "\<dots> \<longleftrightarrow> ?q < of_nat (Suc (Suc k))"
    using pos by (simp add: pos_divide_less_eq)
  also have "\<dots> \<longleftrightarrow> ?q < of_int (int (Suc (Suc k)))"
    by simp
  also have "\<dots> \<longleftrightarrow> \<lfloor>?q\<rfloor> < int (Suc (Suc k))"
    by (simp only: floor_less_iff)
  also have "\<dots> \<longleftrightarrow> rowCapacity t itemWidth pageWidth < Suc (Suc k)"
    using fl unfolding rowCapacity_def by linarith
  also have "\<dots> \<longleftrightarrow> Suc k = rowCapacity t itemWidth pageWidth"
    using k by auto
  finally show ?thesis .
qed

lemma packLoop_state:
  assumes pos: "0 < itemWidth + gapX t"
    and fits: "marginLeft t + itemWidth + marginRight t \<le> pageWidth"
  shows "packLoop src t itemWidth itemHeight pageWidth mk (Suc n) =
     (marginLeft t
        + of_nat (Suc (n mod rowCapacity t itemWidth pageWidth)) * (itemWidth + gapX t),
      gridY t itemHeight (rowCapacity t itemWidth pageWidth) n,
      itemHeight,
      map (\<lambda>i. mk i (gridX t itemWidth (rowCapacity t itemWidth pageWidth) i)
                    (gridY t itemHeight (rowCapacity t itemWidth pageWidth) i))
        [0..<Suc n])"
proof (induction n)
  case 0
  from fits show ?case
    by (simp add: packLoop_Suc packLoop_0 packStep_def gridX_def gridY_def Let_def
        split: source.split)
next
  case (Suc n)
  let ?cap = "rowCapacity t itemWidth pageWidth"
  have cap: "0 < ?cap" using pos fits by (rule rowCapacity_pos)
  then have k: "n mod ?cap < ?cap" by simp
  note w = wrap_iff_row_full [OF pos k]
  show ?case
  proof (cases "Suc (n mod ?cap) = ?cap")
    case True
    then have m: "Suc n mod ?cap = 0" and d: "Suc n div ?cap = Suc (n div ?cap)"
      by (simp_all add: mod_Suc div_Suc)
    from True w have wrap: "pageWidth < marginLeft t
        + of_nat (Suc (n mod ?cap)) * (itemWidth + gapX t) + itemWidth + marginRight t"
      by simp
    show ?thesis
      unfolding packLoop_Suc [of _ _ _ _ _ _ "Suc n"] Suc.IH
      using wrap
      by (simp add: packStep_def Let_def gridX_def gridY_def m d algebra_simps
          split: source.split)
  next
    case False
    then have m: "Suc n mod ?cap = Suc (n mod ?cap)" and d: "Suc n div ?cap = n div ?cap"
      by (simp_all add: mod_Suc div_Suc)
    from False w have nowrap: "\<not> pageWidth < marginLeft t
        + of_nat (Suc (n mod ?cap)) * (itemWidth + gapX t) + itemWidth + marginRight t"
      by simp
    show ?thesis
      unfolding packLoop_Suc [of _ _ _ _ _ _ "Suc n"] Suc.IH
      using nowrap
      by (simp add: packStep_def Let_def gridX_def gridY_def m d algebra_simps
          split: source.split)
  qed
qed

lemma packLoop_photos:
  assumes "0 < itemWidth + gapX t"
    and "marginLeft t + itemWidth + marginRight t \<le> pageWidth"
  shows "snd (snd (snd (packLoop src t itemWidth itemHeight pageWidth mk n))) =
     map (\<lambda>i. mk i (gridX t itemWidth (rowCapacity t itemWidth pageWidth) i)
                   (gridY t itemHeight (rowCapacity t itemWidth pageWidth) i))
       [0..<n]"
proof (cases n)
  case 0
  then show ?thesis by (simp add: packLoop_0)
next
  case (Suc m)
  then show ?thesis by (simp only: packLoop_state [OF assms] snd_conv)
qed

lemma length_filter_less_upt: "length (filter (\<lambda>i. i < k) [0..<n]) = min n k"
  by (induction n) auto

lemma floor_row_capacity: "\<lfloor>(1200 - 55 - 55 + 9) / (100 + 9 :: rat)\<rfloor> = 10"
  by (rule floor_unique) simp_all

lemma rotatedTiling_Demo_capacity: "rowCapacity (rotatedTiling Demo) 100 1200 = 10"
  using floor_row_capacity by (simp add: rowCapacity_def rotatedTiling_def)

lemma eightPhotos_Demo_grid:
  assumes "pageWidthPx Demo st = 1200" and "crop_height c = 100"
  shows "eightPhotos Demo stamp c n st =
     map (\<lambda>i. \<lparr>id' = ''photo-'' @ stamp i @ ''-'' @ string_of_nat i, dataUrl = crop_dataUrl c,
                pos_x = 55 + of_nat (i mod 10) * 109,
                pos_y = 49 + of_nat (i div 10) * (crop_width c + 9),
                width = 100, height = crop_width c,
                originalWidth = crop_width c, originalHeight = 100,
                hasBorder = showBorderByDefault st, rotation = 90\<rparr>)
       [0..<n]"
proof -
  have pos: "0 < (100::rat) + gapX (rotatedTiling Demo)"
    and fits: "marginLeft (rotatedTiling Demo) + 100 + marginRight (rotatedTiling Demo)
        \<le> (1200::rat)"
    by (simp_all add: rotatedTiling_def)
  have rot: "(90::int) smod 180 \<noteq> 0"
    by (simp add: smod_int_alt_def)
  show ?thesis
    using rot
    by (simp add: eightPhotos_def Let_def photoSize_def assms packLoop_photos [OF pos fits]
        rotatedTiling_Demo_capacity gridX_def gridY_def)
      (simp add: rotatedTiling_def)
qed

text \<open>
  C2, as the code has it. On the 1200 px page with item width 100, margins 55 and gaps 9
  the row capacity is \<lfloor>(1200 - 55 - 55 + 9) / (100 + 9)\<rfloor> = 10: item i of the rotated tiling
  lies in column i mod 10 and row i div 10, at x = 55 + 109 (i mod 10) and
  y = 49 + (i div 10) (itemHeight + 9). The first row holds min(count, 10) items, so all
  eight for count = 8. An iteration wraps to x = marginLeft, y + itemHeight + gapY exactly
  when x + itemWidth exceeds pageWidth - marginRight.
\<close>

theorem rotated_tiling_rows:
  assumes "pageWidthPx Demo st = 1200" and "crop_height c = 100"
  shows "nat \<lfloor>(1200 - 55 - 55 + 9) / (100 + 9 :: rat)\<rfloor> = 10
    \<and> eightPhotos Demo stamp c n st =
         map (\<lambda>i. \<lparr>id' = ''photo-'' @ stamp i @ ''-'' @ string_of_nat i,
                    dataUrl = crop_dataUrl c,
                    pos_x = 55 + of_nat (i mod 10) * 109,
                    pos_y = 49 + of_nat (i div 10) * (crop_width c + 9),
                    width = 100, height = crop_width c,
                    originalWidth = crop_width c, originalHeight = 100,
                    hasBorder = showBorderByDefault st, rotation = 90\<rparr>)
           [0..<n]
    \<and> (crop_width c + 9 \<noteq> 0 \<longrightarrow>
          length (filter (\<lambda>p. pos_y p = 49) (eightPhotos Demo stamp c n st)) = min n 10)
    \<and> packStep Demo t itemWidth itemHeight pageWidth mk i (x, y, rowHeight, newPhotos) =
         (if pageWidth - marginRight t < x + itemWidth
          then (marginLeft t + itemWidth + gapX t, y + itemHeight + gapY t, itemHeight,
                newPhotos @ [mk i (marginLeft t) (y + itemHeight + gapY t)])
          else (x + itemWidth + gapX t, y, rowHeight, newPhotos @ [mk i x y]))"
proof (intro conjI impI)
  show "nat \<lfloor>(1200 - 55 - 55 + 9) / (100 + 9 :: rat)\<rfloor> = 10"
    using floor_row_capacity by simp
  show grid: "eightPhotos Demo stamp c n st =
         map (\<lambda>i. \<lparr>id' = ''photo-'' @ stamp i @ ''-'' @ string_of_nat i,
                    dataUrl = crop_dataUrl c,
                    pos_x = 55 + of_nat (i mod 10) * 109,
                    pos_y = 49 + of_nat (i div 10) * (crop_width c + 9),
                    width = 100, height = crop_width c,
                    originalWidth = crop_width c, originalHeight = 100,
                    hasBorder = showBorderByDefault st, rotation = 90\<rparr>)
           [0..<n]"
    using assms by (rule eightPhotos_Demo_grid)
  show "packStep Demo t itemWidth itemHeight pageWidth mk i (x, y, rowHeight, newPhotos) =
         (if pageWidth - marginRight t < x + itemWidth
          then (marginLeft t + itemWidth + gapX t, y + itemHeight + gapY t, itemHeight,
                newPhotos @ [mk i (marginLeft t) (y + itemHeight + gapY t)])
          else (x + itemWidth + gapX t, y, rowHeight, newPhotos @ [mk i x y]))"
    by (simp add: packStep_def Let_def less_diff_eq)
  assume w: "crop_width c + 9 \<noteq> 0"
  have "(49 + of_nat (i div 10) * (crop_width c + 9) = 49) = (i < 10)" for i :: nat
    using w by (simp add: div_eq_0_iff)
  then show "length (filter (\<lambda>p. pos_y p = 49) (eightPhotos Demo stamp c n st)) = min n 10"
    unfolding grid by (simp add: filter_map o_def length_filter_less_upt)
qed

theorem rotated_tiling_rows_witness:
  "pageWidthPx Demo initial = 1200 \<and> crop_height (sampleCrop 300 100) = 100
   \<and> map (\<lambda>p. (pos_x p, pos_y p)) (eightPhotos Demo sampleStamp (sampleCrop 300 100) 8 initial)
      = [(55, 49), (164, 49), (273, 49), (382, 49), (491, 49), (600, 49), (709, 49), (818, 49)]
   \<and> length (filter (\<lambda>p. pos_y p = 49)
        (eightPhotos Demo sampleStamp (sampleCrop 300 100) 8 initial)) = 8
   \<and> length (filter (\<lambda>p. pos_y p = 49)
        (eightPhotos Demo sampleStamp (sampleCrop 300 100) 12 initial)) = 10"
proof -
  have h1: "pageWidthPx Demo initial = 1200"
    by (simp add: pageWidthPx_def currentPageSize_def initial_def)
  have h2: "crop_height (sampleCrop 300 100) = 100"
    by (simp add: sampleCrop_def)
  have w: "crop_width (sampleCrop 300 100) + 9 \<noteq> 0"
    by (simp add: sampleCrop_def)
  note r = rotated_tiling_rows [OF h1 h2, of sampleStamp]
  have "map (\<lambda>p. (pos_x p, pos_y p)) (eightPhotos Demo sampleStamp (sampleCrop 300 100) 8 initial)
      = [(55, 49), (164, 49), (273, 49), (382, 49), (491, 49), (600, 49), (709, 49), (818, 49)]"
    unfolding r [of 8, THEN conjunct2, THEN conjunct1]
    by (simp add: upt_conv_Cons o_def)
  moreover have "length (filter (\<lambda>p. pos_y p = 49)
        (eightPhotos Demo sampleStamp (sampleCrop 300 100) 8 initial)) = 8"
    using r [of 8, THEN conjunct2, THEN conjunct2, THEN conjunct1] w by simp
  moreover have "length (filter (\<lambda>p. pos_y p = 49)
        (eightPhotos Demo sampleStamp (sampleCrop 300 100) 12 initial)) = 10"
    using r [of 12, THEN conjunct2, THEN conjunct2, THEN conjunct1] w by simp
  ultimately show ?thesis using h1 h2 by (simp only: simp_thms)
qed

text \<open>
  C2 as stated fails: with count = 8 the first row holds eight items, not
  \<lfloor>(1200 - 55 - 55 + 9) / (100 + 9)\<rfloor> = 10, and no item wraps.
\<close>

theorem rotated_tiling_counterexample:
  "pageWidthPx Demo initial = 1200
   \<and> list_all (\<lambda>p. width p = 100 \<and> pos_y p = 49)
        (eightPhotos Demo sampleStamp (sampleCrop 300 100) 8 initial)
   \<and> length (filter (\<lambda>p. pos_y p = 49)
        (eightPhotos Demo sampleStamp (sampleCrop 300 100) 8 initial))
      \<noteq> nat \<lfloor>(1200 - 55 - 55 + 9) / (100 + 9 :: rat)\<rfloor>"
  by code_simp

text \<open>
  C6. Neither packing loop looks at the page height: on the initial 4\<times>6 page, for each of
  the bulk adds of both files there are photo dimensions and a count such that every
  record fits the page by its size and some record ends below the page.
\<close>

theorem bulk_add_overflows:
  "(\<exists>c n. list_all (\<lambda>p. width p \<le> pageWidthPx Editor initial \<and> height p \<le> pageHeightPx Editor initial)
             (eightPhotos Editor stamp c n initial)
         \<and> list_ex (\<lambda>p. pageHeightPx Editor initial < pos_y p + height p)
             (eightPhotos Editor stamp c n initial))
   \<and> (\<exists>c n. list_all (\<lambda>p. width p \<le> pageWidthPx Editor initial \<and> height p \<le> pageHeightPx Editor initial)
             (multiplePhotos Editor stamp c n initial)
         \<and> list_ex (\<lambda>p. pageHeightPx Editor initial < pos_y p + height p)
             (multiplePhotos Editor stamp c n initial))
   \<and> (\<exists>c n. list_all (\<lambda>p. width p \<le> pageWidthPx Demo initial \<and> height p \<le> pageHeightPx Demo initial)
             (eightPhotos Demo stamp c n initial)
         \<and> list_ex (\<lambda>p. pageHeightPx Demo initial < pos_y p + height p)
             (eightPhotos Demo stamp c n initial))
   \<and> (\<exists>c n. list_all (\<lambda>p. width p \<le> pageWidthPx Demo initial \<and> height p \<le> pageHeightPx Demo initial)
             (multiplePhotos Demo stamp c n initial)
         \<and> list_ex (\<lambda>p. pageHeightPx Demo initial < pos_y p + height p)
             (multiplePhotos Demo stamp c n initial))"
proof (intro conjI)
  show "\<exists>c n. list_all (\<lambda>p. width p \<le> pageWidthPx Editor initial \<and> height p \<le> pageHeightPx Editor initial)
             (eightPhotos Editor stamp c n initial)
         \<and> list_ex (\<lambda>p. pageHeightPx Editor initial < pos_y p + height p)
             (eightPhotos Editor stamp c n initial)"
    by (rule exI [of _ "sampleCrop 150 150"], rule exI [of _ 8]) code_simp
  show "\<exists>c n. list_all (\<lambda>p. width p \<le> pageWidthPx Editor initial \<and> height p \<le> pageHeightPx Editor initial)
             (multiplePhotos Editor stamp c n initial)
         \<and> list_ex (\<lambda>p. pageHeightPx Editor initial < pos_y p + height p)
             (multiplePhotos Editor stamp c n initial)"
    by (rule exI [of _ "sampleCrop 150 150"], rule exI [of _ 12]) code_simp
  show "\<exists>c n. list_all (\<lambda>p. width p \<le> pageWidthPx Demo initial \<and> height p \<le> pageHeightPx Demo initial)
             (eightPhotos Demo stamp c n initial)
         \<and> list_ex (\<lambda>p. pageHeightPx Demo initial < pos_y p + height p)
             (eightPhotos Demo stamp c n initial)"
    by (rule exI [of _ "sampleCrop 400 600"], rule exI [of _ 8]) code_simp
  show "\<exists>c n. list_all (\<lambda>p. width p \<le> pageWidthPx Demo initial \<and> height p \<le> pageHeightPx Demo initial)
             (multiplePhotos Demo stamp c n initial)
         \<and> list_ex (\<lambda>p. pageHeightPx Demo initial < pos_y p + height p)
             (multiplePhotos Demo stamp c n initial)"
    by (rule exI [of _ "sampleCrop 400 600"], rule exI [of _ 12]) code_simp
qed

subsection \<open>Printing\<close>

text \<open>
  C8. Printing an empty layout adds one notification to the effects and nothing else: no
  print window is opened, and the photo list, the selection set and the page size (every
  other part of the state, in fact) stay as they were. With a non-empty photo list the
  print window is opened and no notification is emitted.
\<close>

theorem print_empty_layout:
  "(photos st = [] \<longrightarrow>
      handlePrint src opened st = st\<lparr>effects := effects st @ [emptyLayoutNotice src]\<rparr>
      \<and> isNotification (emptyLayoutNotice src)
      \<and> Window_open \<notin> set (drop (length (effects st)) (effects (handlePrint src opened st))))
   \<and> (photos st \<noteq> [] \<longrightarrow>
      take (length (effects st)) (effects (handlePrint src opened st)) = effects st
      \<and> list_all (\<lambda>e. \<not> isNotification e)
          (drop (length (effects st)) (effects (handlePrint src opened st)))
      \<and> Window_open \<in> set (drop (length (effects st)) (effects (handlePrint src opened st))))
   \<and> photos (handlePrint src opened st) = photos st
   \<and> selectedPhotoIds (handlePrint src opened st) = selectedPhotoIds st
   \<and> pageSize (handlePrint src opened st) = pageSize st"
  by (cases src) (simp_all add: handlePrint_def emptyLayoutNotice_def)

theorem print_empty_layout_witness:
  "photos initial = []
   \<and> effects (handlePrint Editor True initial) = [Toast_error ''Add at least one photo to print'']
   \<and> effects (handlePrint Demo True initial) = [Alert ''Add at least one photo to print'']
   \<and> photos (sampleEditor Key_4x6 True [samplePhoto ''photo-1'' 0 0 96 96 0] {}) \<noteq> []
   \<and> effects (handlePrint Editor True
        (sampleEditor Key_4x6 True [samplePhoto ''photo-1'' 0 0 96 96 0] {}))
      = [Window_open,
         Document_write 4 6
           [\<lparr>box_unit = Percent, box_left = 0, box_top = 0, box_width = 25,
             box_height = 50 / 3, box_border = True, img_width = 96, img_height = 96,
             img_rotation = 0, img_src = ''data:,''\<rparr>],
         Document_close]"
  using print_empty_layout [of initial Editor True] print_empty_layout [of initial Demo True]
    print_empty_layout [of "sampleEditor Key_4x6 True [samplePhoto ''photo-1'' 0 0 96 96 0] {}"
      Editor True]
  by (simp add: handlePrint_def emptyLayoutNotice_def initial_def sampleEditor_def
      samplePhoto_def printBoxOf_def pageWidthPx_def pageHeightPx_def currentPageSize_def)

subsection \<open>Stored rotation angles stay in range\<close>

text \<open>
  The handlers that write the photo list keep every stored angle in [0, 360): new records
  carry 0 or 90, \<open>rotatePhoto\<close> reduces modulo 360, the others do not touch the angle.
\<close>

lemma packLoop_all:
  assumes "\<And>i x y. P (mk i x y)"
  shows "list_all P (snd (snd (snd (packLoop src t itemWidth itemHeight pageWidth mk n))))"
proof (induction n)
  case 0
  show ?case by (simp add: packLoop_0)
next
  case (Suc n)
  obtain x y rowHeight newPhotos
    where s: "packLoop src t itemWidth itemHeight pageWidth mk n = (x, y, rowHeight, newPhotos)"
    by (cases "packLoop src t itemWidth itemHeight pageWidth mk n") auto
  with Suc assms show ?case
    by (simp add: packLoop_Suc packStep_def Let_def)
qed

lemma validRotation_moved:
  "validRotation (dragOne rip pw ph deltaX deltaY p) = validRotation p"
  "validRotation (nudgeOne rip pw ph key step p) = validRotation p"
  by (simp_all add: validRotation_def dragOne_def nudgeOne_def Let_def)

lemma validRotation_preserved:
  assumes "list_all validRotation (photos st)"
  shows "list_all validRotation (photos (handleAddPhoto src stamp1 c st))"
    and "list_all validRotation (photos (handleAddEightPhotos src stamp c n st))"
    and "list_all validRotation (photos (handleAddMultiplePhotos src stamp c n st))"
    and "list_all validRotation (photos (handleDeletePhoto photoId st))"
    and "list_all validRotation (photos (handleDeleteSelected src st))"
    and "list_all validRotation (photos (clearAll st))"
    and "list_all validRotation (photos (togglePhotoBorder photoId st))"
    and "list_all validRotation (photos (rotatePhoto src photoId st))"
    and "list_all validRotation (photos (handleMouseMove src memo rect e st))"
    and "list_all validRotation (photos (handleKeyDown src memo key shiftKey st))"
    and "list_all validRotation (photos (handlePrint src opened st))"
proof -
  show "list_all validRotation (photos (handleAddPhoto src stamp1 c st))"
    using assms by (simp add: handleAddPhoto_def Let_def validRotation_def)
  show "list_all validRotation (photos (handleAddEightPhotos src stamp c n st))"
    using assms
    by (simp add: handleAddEightPhotos_def eightPhotos_def Let_def)
      (rule packLoop_all, simp add: validRotation_def)
  show "list_all validRotation (photos (handleAddMultiplePhotos src stamp c n st))"
    using assms
    by (simp add: handleAddMultiplePhotos_def multiplePhotos_def Let_def)
      (rule packLoop_all, simp add: validRotation_def)
  show "list_all validRotation (photos (handleDeletePhoto photoId st))"
    using assms by (simp add: handleDeletePhoto_def list_all_iff)
  show "list_all validRotation (photos (handleDeleteSelected src st))"
    using assms by (simp add: handleDeleteSelected_def list_all_iff)
  show "list_all validRotation (photos (clearAll st))"
    by (simp add: clearAll_def)
  show "list_all validRotation (photos (togglePhotoBorder photoId st))"
    unfolding togglePhotoBorder_def using assms
    by (simp, intro list_all_map_keeps) (simp_all add: validRotation_def)
  show "list_all validRotation (photos (rotatePhoto src photoId st))"
    unfolding rotatePhoto_photos using assms
    by (rule list_all_map_keeps) (simp add: rotateOne_valid)
  show "list_all validRotation (photos (handleMouseMove src memo rect e st))"
  proof -
    have "list_all validRotation (map (\<lambda>p. if id' p \<in> selectedPhotoIds st
                              then dragOne (seenRotateInPlace src memo st) (pageWidthPx src st)
                                     (pageHeightPx src st) deltaX deltaY p
                              else p) (photos st))" for deltaX deltaY
      using assms by (rule list_all_map_keeps) (simp add: validRotation_moved)
    with assms handleMouseMove_cases [of src memo rect e st] show ?thesis by auto
  qed
  show "list_all validRotation (photos (handleKeyDown src memo key shiftKey st))"
  proof (cases "selectedPhotoIds st = {}")
    case True
    with assms show ?thesis by (simp add: handleKeyDown_def)
  next
    case False
    have "list_all validRotation
       (map (\<lambda>p. if id' p \<notin> selectedPhotoIds st then p
                 else nudgeOne (seenRotateInPlace src memo st) (pageWidthPx src st) (pageHeightPx src st)
                        key (if shiftKey then 10 else 1) p) (photos st))"
      using assms by (rule list_all_map_keeps) (simp add: validRotation_moved)
    with False show ?thesis by (simp add: handleKeyDown_def Let_def)
  qed
  show "list_all validRotation (photos (handlePrint src opened st))"
    using assms by (simp add: handlePrint_def)
qed

lemma validRotation_initial: "list_all validRotation (photos initial)"
  by (simp add: initial_def)

end
